theory Spec2Isabelle
  imports Main "HOL-Library.Monad_Syntax" "HOL-Library.Sublist"
begin

section \<open>The recursive date-range planner of the SSE search crawler\<close>

text \<open>
  \<^verbatim>\<open>SSESearchCrawler.run_recursive(start_date, end_date)\<close> works on date strings
  \<^verbatim>\<open>YYYY-MM-DD\<close>. A date is modelled by its proleptic Gregorian day number
  (\<^verbatim>\<open>date.toordinal()\<close>, so 2024-01-01 is 738886), which stands for the string with
  every field zero-padded. The days that have such a string are 1 (0001-01-01) to
  3652059 (9999-12-31); any other number stands for a string that is not a date, which
  \<^verbatim>\<open>strptime\<close> rejects with \<^verbatim>\<open>ValueError\<close>. \<^verbatim>\<open>timedelta(days=1)\<close> adds one, and adding
  a day to 9999-12-31 raises \<^verbatim>\<open>OverflowError\<close>.

  \<^verbatim>\<open>strftime("%Y-%m-%d")\<close> does not pad the year (the C library's \<^verbatim>\<open>%Y\<close>): a day
  before 1000-01-01 (day 364878) is printed with fewer than four digits. That text is
  equal to no string \<^verbatim>\<open>strptime\<close> accepts, and \<^verbatim>\<open>strptime\<close>, which wants four
  digits, rejects it in its turn. From 1000-01-01 on \<^verbatim>\<open>strptime\<close> and \<^verbatim>\<open>strftime\<close>
  are inverse to each other and string equality is equality of day numbers.

  \<^verbatim>\<open>check_total_count\<close> asks the network, and gives 0 on any failure, so two probes
  of one window need not agree. It is a parameter of the model: the answer to the
  \<open>k\<close>-th probe of the run, for the window probed. A total-count function in the
  usual sense is the case where the answer ignores \<open>k\<close>.

  \<^verbatim>\<open>search_all\<close>, the drain of one window, is a parameter too: \<open>None\<close> is a drain
  that never returns (it retries a failing request without bound), \<open>Some rs\<close> one that
  returns the records \<open>rs\<close>; it catches every exception of its loop. The last parameter
  is the unguarded \<^verbatim>\<open>json.dump\<close> of the records of a leaf into a file named after the
  window: \<open>None\<close> when the file is written, \<open>Some e\<close> when opening or writing raises
  \<open>e\<close>. \<^verbatim>\<open>save_to_csv\<close> catches what it raises and has no part in the result.
\<close>

type_synonym window = "int \<times> int"

text \<open>
  Python exceptions are values: \<open>Inl e\<close> is a call that raised \<open>e\<close>. The messages of
  the \<^verbatim>\<open>ValueError\<close>s raised by \<^verbatim>\<open>CninfoSearchDownloader.run\<close> are named by
  what they reject; \<open>DateFormat\<close> is also the \<^verbatim>\<open>ValueError\<close> of \<^verbatim>\<open>strptime\<close>.
\<close>

datatype reason = BadStep | MaxPages | MaxResults | Workers | DateFormat | DateOrder

datatype error = OverflowError | TypeError | ValueError reason | EOFError | OSError

record outcome =
  probes :: "window list"   \<comment> \<open>windows passed to \<^verbatim>\<open>check_total_count\<close>, in call order\<close>
  leaves :: "window list"   \<comment> \<open>windows passed to \<^verbatim>\<open>search_all\<close>, in call order\<close>
  found :: nat              \<comment> \<open>the integer returned\<close>
  clock :: nat              \<comment> \<open>number of probes made so far in the run\<close>

definition max_ordinal :: int where
  "max_ordinal = 3652059"

definition first_padded :: int where
  \<comment> \<open>1000-01-01, the first day \<^verbatim>\<open>strftime\<close> prints with a four-digit year\<close>
  "first_padded = 364878"

definition is_date :: "int \<Rightarrow> bool" where
  "is_date d = (1 \<le> d \<and> d \<le> max_ordinal)"

text \<open>
  \<^verbatim>\<open>mid = (dt_start + (dt_end - dt_start) / 2).strftime("%Y-%m-%d")\<close> followed by
  \<^verbatim>\<open>if mid == end_date: mid = start_date\<close>. Halving a whole number of days and
  dropping the time of day is division rounding down, for either sign.
\<close>

definition midpoint :: "int \<Rightarrow> int \<Rightarrow> int" where
  "midpoint start_date end_date =
     (let mid = start_date + (end_date - start_date) div 2
      in if mid = end_date then start_date else mid)"

text \<open>
  The recursion need not return, so the function is partial: \<open>None\<close> is a run that
  never returns, \<open>Some (Inl e)\<close> one that raises, \<open>Some (Inr r)\<close> one that returns.
  The left recursive call is evaluated before the right one, as Python does.

  In the branch that bisects, \<^verbatim>\<open>strptime\<close> reads \<^verbatim>\<open>start_date\<close> and \<^verbatim>\<open>end_date\<close>,
  and then \<^verbatim>\<open>mid\<close> as \<^verbatim>\<open>strftime\<close> printed it: a day halfway that lies before
  1000-01-01 is printed without padding, is not replaced by \<^verbatim>\<open>start_date\<close>, and is
  rejected. The interpreter's bound on the depth of recursion is not part of the model:
  a run that nests without end is a run that does not return.
\<close>

partial_function (option) run_recursive ::
  "(nat \<Rightarrow> window \<Rightarrow> int) \<Rightarrow> (window \<Rightarrow> 'r list option) \<Rightarrow> (window \<Rightarrow> 'r list \<Rightarrow> error option)
     \<Rightarrow> nat \<Rightarrow> int \<Rightarrow> int \<Rightarrow> (error + outcome) option"
where
  "run_recursive check_total_count search_all dump k start_date end_date =
     (let total = check_total_count k (start_date, end_date) in
      if total = 0 then
        Some (Inr \<lparr>probes = [(start_date, end_date)], leaves = [], found = 0, clock = Suc k\<rparr>)
      else if total > 4800 then
        (if \<not> is_date start_date \<or> \<not> is_date end_date then Some (Inl (ValueError DateFormat))
         else if start_date + (end_date - start_date) div 2 < first_padded
         then Some (Inl (ValueError DateFormat))
         else
           (let mid = midpoint start_date end_date in
            if mid + 1 > max_ordinal then Some (Inl OverflowError)
            else
              run_recursive check_total_count search_all dump (Suc k) start_date mid \<bind> (\<lambda>r1.
                case r1 of
                  Inl e \<Rightarrow> Some (Inl e)
                | Inr a \<Rightarrow>
                    run_recursive check_total_count search_all dump (clock a) (mid + 1) end_date
                      \<bind> (\<lambda>r2.
                      case r2 of
                        Inl e \<Rightarrow> Some (Inl e)
                      | Inr b \<Rightarrow>
                          Some (Inr \<lparr>probes = (start_date, end_date) # probes a @ probes b,
                                     leaves = leaves a @ leaves b,
                                     found = found a + found b,
                                     clock = clock b\<rparr>)))))
      else
        (case search_all (start_date, end_date) of
           None \<Rightarrow> None
         | Some results \<Rightarrow>
             (case (if results = [] then None else dump (start_date, end_date) results) of
                Some e \<Rightarrow> Some (Inl e)
              | None \<Rightarrow>
                  Some (Inr \<lparr>probes = [(start_date, end_date)], leaves = [(start_date, end_date)],
                             found = length results, clock = Suc k\<rparr>))))"

declare run_recursive.simps [code]

text \<open>The days of a window, and what a run left out: the windows probed with total 0.\<close>

definition days :: "window \<Rightarrow> int set" where
  "days w = {fst w..snd w}"

definition skipped :: "(window \<Rightarrow> int) \<Rightarrow> outcome \<Rightarrow> window list" where
  "skipped c r = filter (\<lambda>w. c w = 0) (probes r)"

definition leaf_ok :: "(window \<Rightarrow> int) \<Rightarrow> int \<Rightarrow> int \<Rightarrow> window \<Rightarrow> bool" where
  "leaf_ok c s e w = (s \<le> fst w \<and> fst w \<le> snd w \<and> snd w \<le> e \<and> c w \<noteq> 0 \<and> c w \<le> 4800)"

definition plan_ok :: "(window \<Rightarrow> int) \<Rightarrow> int \<Rightarrow> int \<Rightarrow> outcome \<Rightarrow> bool" where
  "plan_ok c s e r =
     (sorted_wrt (\<lambda>w1 w2. snd w1 < fst w2) (leaves r)
      \<and> list_all (leaf_ok c s e) (leaves r)
      \<and> sum_list (map c (leaves r)) = c (s, e)
      \<and> \<Union> (days ` set (leaves r)) \<union> \<Union> (days ` set (skipped c r)) = {s..e})"

text \<open>Total-count functions, drains and writes used as concrete inputs below.\<close>

definition per_day_1000 :: "window \<Rightarrow> int" where
  \<comment> \<open>1000 records on every day\<close>
  "per_day_1000 w = (snd w - fst w + 1) * 1000"

definition no_results :: "nat \<Rightarrow> window \<Rightarrow> int" where
  \<comment> \<open>nothing matches on any day\<close>
  "no_results k w = 0"

definition flaky :: "nat \<Rightarrow> window \<Rightarrow> int" where
  \<comment> \<open>the first probe is answered with 5000, every later one fails (a failed probe gives 0)\<close>
  "flaky k w = (if k = 0 then 5000 else 0)"

definition empty_plan :: outcome where
  "empty_plan = \<lparr>probes = [(738886, 738886)], leaves = [], found = 0, clock = 1\<rparr>"

definition day_numbers :: "window \<Rightarrow> int list" where
  \<comment> \<open>a drain that returns one record for every day of the window\<close>
  "day_numbers w = map (\<lambda>i. fst w + int i) [0..<nat (snd w - fst w + 1)]"

definition written :: "window \<Rightarrow> int list \<Rightarrow> error option" where
  \<comment> \<open>every write succeeds\<close>
  "written w rs = None"

definition disk_full :: "window \<Rightarrow> int list \<Rightarrow> error option" where
  \<comment> \<open>every write raises\<close>
  "disk_full w rs = Some OSError"

section \<open>Properties of the planner\<close>

lemma midpoint_single: "midpoint d d = d"
  by (simp add: midpoint_def)

text \<open>
  A run that returns did not start on a single day whose every probe is over the
  ceiling: by induction over the calls of a returning run.
\<close>

lemma run_recursive_returns_not_stuck:
  assumes "run_recursive c sa dp k s e = Some y"
    and "first_padded \<le> d" and "d + 1 \<le> max_ordinal"
  shows "(\<forall>j. 4800 < c j (d, d)) \<longrightarrow> \<not> (s = d \<and> e = d)"
proof (rule run_recursive.raw_induct
    [where P = "\<lambda>c sa dp k s e y. (\<forall>j. 4800 < c j (d, d)) \<longrightarrow> \<not> (s = d \<and> e = d)",
     OF _ assms(1)],
    goal_cases)
  case (1 f c sa dp k s e y)
  show ?case
  proof (intro impI notI)
    assume over: "\<forall>j. 4800 < c j (d, d)" and eq: "s = d \<and> e = d"
    from over have "4800 < c k (d, d)" by blast
    moreover have "is_date d" using assms(2,3) by (simp add: is_date_def first_padded_def)
    ultimately obtain z where "f c sa dp (Suc k) d d = Some z"
      using eq assms(2,3) 1(2)
      by (auto simp: midpoint_single Let_def split: if_splits bind_splits)
    from 1(1)[OF this] over show False by simp
  qed
qed

lemma run_recursive_stuck:
  assumes "\<And>k. 4800 < c k (d, d)" and "first_padded \<le> d" and "d + 1 \<le> max_ordinal"
  shows "run_recursive c sa dp k d d = None"
proof (cases "run_recursive c sa dp k d d")
  case (Some y)
  from run_recursive_returns_not_stuck[OF Some assms(2,3)] assms(1) show ?thesis by blast
qed simp

lemma midpoint_bounds:
  assumes "s < e" shows "s \<le> midpoint s e" "midpoint s e < e"
  using assms by (auto simp: midpoint_def Let_def)

lemma plan_ok_leaf:
  assumes "s \<le> e" "c (s, e) \<noteq> 0" "c (s, e) \<le> 4800"
  shows "plan_ok c s e \<lparr>probes = [(s, e)], leaves = [(s, e)], found = n, clock = k\<rparr>"
  using assms by (simp add: plan_ok_def leaf_ok_def days_def skipped_def)

lemma plan_ok_skip:
  assumes "c (s, e) = 0"
  shows "plan_ok c s e \<lparr>probes = [(s, e)], leaves = [], found = n, clock = k\<rparr>"
  using assms by (simp add: plan_ok_def leaf_ok_def days_def skipped_def)

lemma leaf_ok_widen:
  "leaf_ok c s e w \<Longrightarrow> s' \<le> s \<Longrightarrow> e \<le> e' \<Longrightarrow> leaf_ok c s' e' w"
  by (auto simp: leaf_ok_def)

lemma plan_ok_join:
  assumes a: "plan_ok c s m a" and b: "plan_ok c (m + 1) e b"
    and sm: "s \<le> m" and me: "m < e"
    and add: "c (s, e) = c (s, m) + c (m + 1, e)" and big: "c (s, e) \<noteq> 0"
  shows "plan_ok c s e \<lparr>probes = (s, e) # probes a @ probes b, leaves = leaves a @ leaves b,
                        found = n, clock = k\<rparr>"
proof -
  have la: "list_all (leaf_ok c s e) (leaves a)"
    using a me by (auto simp: plan_ok_def list_all_iff intro: leaf_ok_widen)
  have lb: "list_all (leaf_ok c s e) (leaves b)"
    using b sm by (auto simp: plan_ok_def list_all_iff intro: leaf_ok_widen)
  have cross: "\<forall>x\<in>set (leaves a). \<forall>y\<in>set (leaves b). snd x < fst y"
    using a b by (fastforce simp: plan_ok_def list_all_iff leaf_ok_def)
  have srt: "sorted_wrt (\<lambda>w1 w2. snd w1 < fst w2) (leaves a @ leaves b)"
    using a b cross by (simp add: plan_ok_def sorted_wrt_append)
  have tot: "sum_list (map c (leaves a @ leaves b)) = c (s, e)"
    using a b add by (simp add: plan_ok_def)
  have ca: "\<Union> (days ` set (leaves a)) \<union> \<Union> (days ` set (skipped c a)) = {s..m}"
    using a by (simp add: plan_ok_def)
  have cb: "\<Union> (days ` set (leaves b)) \<union> \<Union> (days ` set (skipped c b)) = {m + 1..e}"
    using b by (simp add: plan_ok_def)
  have split: "{s..e} = {s..m} \<union> {m + 1..e}"
    using sm me by auto
  have cov: "\<Union> (days ` set (leaves a @ leaves b))
      \<union> \<Union> (days ` set (filter (\<lambda>w. c w = 0) ((s, e) # probes a @ probes b))) = {s..e}"
    unfolding split ca[symmetric] cb[symmetric] using big by (auto simp: skipped_def)
  show ?thesis
    using la lb srt tot cov by (simp add: plan_ok_def skipped_def)
qed

text \<open>
  The plan of a run over a root from 1000-01-01 on, no day of which is over the ceiling,
  when the drain of every window inside the root with a total that is not 0 and at
  most 4800 returns and
  the write of what it returned succeeds: by induction on the length of the root.
\<close>

lemma run_recursive_plan:
  fixes c :: "window \<Rightarrow> int"
  assumes additive: "\<And>a m b. a \<le> m \<Longrightarrow> m < b \<Longrightarrow> c (a, b) = c (a, m) + c (m + 1, b)"
  shows "nat (e - s) = n \<Longrightarrow> s \<le> e \<Longrightarrow> (\<forall>d. s \<le> d \<and> d \<le> e \<longrightarrow> c (d, d) \<le> 4800)
     \<Longrightarrow> first_padded \<le> s \<Longrightarrow> e \<le> max_ordinal
     \<Longrightarrow> (\<forall>w. s \<le> fst w \<and> fst w \<le> snd w \<and> snd w \<le> e \<and> c w \<noteq> 0 \<and> c w \<le> 4800
            \<longrightarrow> sa w = Some (rs w) \<and> (rs w \<noteq> [] \<longrightarrow> dp w (rs w) = None))
     \<Longrightarrow> \<exists>r. run_recursive (\<lambda>k. c) sa dp k s e = Some (Inr r) \<and> plan_ok c s e r
            \<and> found r = sum_list (map (\<lambda>w. length (rs w)) (leaves r))"
proof (induction n arbitrary: s e k rule: less_induct)
  case (less n)
  let ?t = "c (s, e)"
  consider (zero) "?t = 0" | (leaf) "?t \<noteq> 0" "?t \<le> 4800" | (split) "4800 < ?t" by linarith
  then show ?case
  proof cases
    case zero
    then show ?thesis
      by (subst run_recursive.simps) (simp add: plan_ok_skip)
  next
    case leaf
    from less.prems(2,6) leaf have "sa (s, e) = Some (rs (s, e))"
      and "rs (s, e) \<noteq> [] \<longrightarrow> dp (s, e) (rs (s, e)) = None"
      by simp_all
    then show ?thesis using leaf less.prems(2)
      by (subst run_recursive.simps) (simp add: plan_ok_leaf)
  next
    case split
    have "s \<noteq> e" using split less.prems(2,3) by force
    with less.prems(2) have se: "s < e" by simp
    define m where "m = midpoint s e"
    have sm: "s \<le> m" and me: "m < e" using midpoint_bounds[OF se] by (simp_all add: m_def)
    have room: "\<not> max_ordinal < m + 1" using me less.prems(5) by simp
    have dates: "is_date s" "is_date e"
      using less.prems(2,4,5) by (simp_all add: is_date_def first_padded_def)
    have padded: "\<not> s + (e - s) div 2 < first_padded"
      using se less.prems(4) by simp
    have sub_a: "\<forall>w. s \<le> fst w \<and> fst w \<le> snd w \<and> snd w \<le> m \<and> c w \<noteq> 0 \<and> c w \<le> 4800
        \<longrightarrow> sa w = Some (rs w) \<and> (rs w \<noteq> [] \<longrightarrow> dp w (rs w) = None)"
      using less.prems(6) me by auto
    have sub_b: "\<forall>w. m + 1 \<le> fst w \<and> fst w \<le> snd w \<and> snd w \<le> e \<and> c w \<noteq> 0 \<and> c w \<le> 4800
        \<longrightarrow> sa w = Some (rs w) \<and> (rs w \<noteq> [] \<longrightarrow> dp w (rs w) = None)"
      using less.prems(6) sm by auto
    have days_a: "\<forall>d. s \<le> d \<and> d \<le> m \<longrightarrow> c (d, d) \<le> 4800"
      using less.prems(3) me by auto
    have days_b: "\<forall>d. m + 1 \<le> d \<and> d \<le> e \<longrightarrow> c (d, d) \<le> 4800"
      using less.prems(3) sm by auto
    have "nat (m - s) < n" using less.prems(1) sm me by auto
    from less.IH[OF this refl sm days_a less.prems(4) _ sub_a, of "Suc k"] me less.prems(5)
    obtain a where a: "run_recursive (\<lambda>k. c) sa dp (Suc k) s m = Some (Inr a)" "plan_ok c s m a"
      "found a = sum_list (map (\<lambda>w. length (rs w)) (leaves a))"
      by auto
    have "nat (e - (m + 1)) < n" using less.prems(1) sm me by auto
    from less.IH[OF this refl _ days_b _ less.prems(5) sub_b, of "clock a"] sm me less.prems(4)
    obtain b where b: "run_recursive (\<lambda>k. c) sa dp (clock a) (m + 1) e = Some (Inr b)"
      "plan_ok c (m + 1) e b" "found b = sum_list (map (\<lambda>w. length (rs w)) (leaves b))"
      by auto
    have "c (s, e) = c (s, m) + c (m + 1, e)" using additive sm me by blast
    from plan_ok_join[OF a(2) b(2) sm me this] split
    have ok: "plan_ok c s e \<lparr>probes = (s, e) # probes a @ probes b,
        leaves = leaves a @ leaves b, found = found a + found b, clock = clock b\<rparr>"
      by simp
    show ?thesis
      using split room dates padded a(1,3) b(1,3) ok
      by (subst run_recursive.simps) (simp add: m_def[symmetric] Let_def)
  qed
qed

text \<open>
  The branches of a run that ends otherwise than by returning. A root in the year 999
  with 5000 results is bisected, the day halfway is printed \<^verbatim>\<open>999-01-05\<close>, and
  \<^verbatim>\<open>strptime\<close> raises. A leaf whose drain does not return is a run that does not
  return, and a leaf whose write raises is a run that raises.
\<close>

lemma run_recursive_unpadded_year:
  "run_recursive (\<lambda>k w. 5000) sa dp 0 364513 364522 = Some (Inl (ValueError DateFormat))"
  by (simp add: run_recursive.simps is_date_def max_ordinal_def first_padded_def)

lemma run_recursive_not_a_date:
  "run_recursive (\<lambda>k w. 5000) sa dp 0 (- 20) (- 11) = Some (Inl (ValueError DateFormat))"
  by (simp add: run_recursive.simps is_date_def)

lemma run_recursive_drain_never_returns:
  "run_recursive (\<lambda>k w. 100) (\<lambda>w. None) dp 0 738886 738886 = None"
  by (simp add: run_recursive.simps)

lemma run_recursive_write_raises:
  "run_recursive (\<lambda>k w. 100) (\<lambda>w. Some (day_numbers w)) disk_full 0 738886 738886
     = Some (Inl OSError)"
  by (simp add: run_recursive.simps day_numbers_def disk_full_def)

text \<open>
  Claim C1. The claim: the planner terminates on every window with start \<open>\<le>\<close> end and
  every total-count function, a single-day window over the ceiling being accepted as a
  leaf. The code: on the single day 2024-01-01 (day 738886) with a total of 5000 at
  every probe, \<open>mid\<close> is the day itself, the left recursive call is the call being
  made, and the run never returns; no leaf is emitted.
\<close>

theorem run_recursive_single_day_never_returns:
  "run_recursive (\<lambda>k w. 5000) search_all dump 0 738886 738886 = None"
  by (rule run_recursive_stuck) (simp_all add: max_ordinal_def first_padded_def)

text \<open>
  Claim C2, as amended. The claim: for an additive total-count function and a root window
  with start \<open>\<le>\<close> end, the leaves are pairwise disjoint, their union is exactly the root
  window, their totals sum to the root's total, and each leaf total is at most 4800
  unless the leaf is a single day. The code emits nothing for a window whose total is 0,
  so the leaves cover the root only up to the windows skipped that way; and it never
  emits a leaf over the ceiling. What holds, for a root from 1000-01-01 to 9999-12-31 no
  single day of which is over the ceiling, provided that the drain of every window
  inside the root with a total that is not 0 and at most 4800 returns, and that the
  write of the records it returned, when there are any, succeeds: the run returns; its
  leaves are in ascending order and pairwise disjoint, lie inside the root, each has a
  total that is not 0 and at most 4800; the leaf totals sum to the root's total; the
  leaves together with the windows probed with total 0 cover exactly the root; and the
  integer returned is the number of records drained from the leaves.
\<close>

theorem run_recursive_leaves_partition:
  fixes c :: "window \<Rightarrow> int"
  assumes "\<And>a m b. a \<le> m \<Longrightarrow> m < b \<Longrightarrow> c (a, b) = c (a, m) + c (m + 1, b)"
    and "\<And>d. s \<le> d \<Longrightarrow> d \<le> e \<Longrightarrow> c (d, d) \<le> 4800"
    and "first_padded \<le> s" and "s \<le> e" and "e \<le> max_ordinal"
    and "\<And>w. s \<le> fst w \<Longrightarrow> fst w \<le> snd w \<Longrightarrow> snd w \<le> e \<Longrightarrow> c w \<noteq> 0 \<Longrightarrow> c w \<le> 4800
           \<Longrightarrow> search_all w = Some (results w)"
    and "\<And>w. s \<le> fst w \<Longrightarrow> fst w \<le> snd w \<Longrightarrow> snd w \<le> e \<Longrightarrow> c w \<noteq> 0 \<Longrightarrow> c w \<le> 4800
           \<Longrightarrow> results w \<noteq> [] \<Longrightarrow> dump w (results w) = None"
  shows "\<exists>r. run_recursive (\<lambda>k. c) search_all dump k s e = Some (Inr r)
           \<and> sorted_wrt (\<lambda>w1 w2. snd w1 < fst w2) (leaves r)
           \<and> (\<forall>i j. i < j \<and> j < length (leaves r)
                 \<longrightarrow> days (leaves r ! i) \<inter> days (leaves r ! j) = {})
           \<and> (\<forall>w \<in> set (leaves r).
                 s \<le> fst w \<and> fst w \<le> snd w \<and> snd w \<le> e \<and> c w \<noteq> 0 \<and> c w \<le> 4800)
           \<and> sum_list (map c (leaves r)) = c (s, e)
           \<and> \<Union> (days ` set (leaves r)) \<union> \<Union> (days ` {w \<in> set (probes r). c w = 0}) = {s..e}
           \<and> found r = sum_list (map (\<lambda>w. length (results w)) (leaves r))"
proof -
  have leaf: "\<forall>w. s \<le> fst w \<and> fst w \<le> snd w \<and> snd w \<le> e \<and> c w \<noteq> 0 \<and> c w \<le> 4800
      \<longrightarrow> search_all w = Some (results w)
          \<and> (results w \<noteq> [] \<longrightarrow> dump w (results w) = None)"
    using assms(6,7) by blast
  from run_recursive_plan[of c e s "nat (e - s)" search_all results dump k] assms(1-5) leaf
  obtain r where r: "run_recursive (\<lambda>k. c) search_all dump k s e = Some (Inr r)"
    "plan_ok c s e r" "found r = sum_list (map (\<lambda>w. length (results w)) (leaves r))"
    by blast
  from r(2) have srt: "sorted_wrt (\<lambda>w1 w2. snd w1 < fst w2) (leaves r)"
    by (simp add: plan_ok_def)
  have disj: "days (leaves r ! i) \<inter> days (leaves r ! j) = {}"
    if "i < j \<and> j < length (leaves r)" for i j
  proof -
    from srt that have "snd (leaves r ! i) < fst (leaves r ! j)"
      by (simp add: sorted_wrt_iff_nth_less)
    then show ?thesis by (auto simp: days_def)
  qed
  from r(2) have ok: "\<forall>w \<in> set (leaves r).
      s \<le> fst w \<and> fst w \<le> snd w \<and> snd w \<le> e \<and> c w \<noteq> 0 \<and> c w \<le> 4800"
    by (simp add: plan_ok_def list_all_iff leaf_ok_def)
  from r(2) have rest: "sum_list (map c (leaves r)) = c (s, e)"
    "\<Union> (days ` set (leaves r)) \<union> \<Union> (days ` {w \<in> set (probes r). c w = 0}) = {s..e}"
    by (simp_all add: plan_ok_def skipped_def)
  from r(1,3) srt disj ok rest show ?thesis by blast
qed

text \<open>
  The theorem at a ten-day window from 2024-01-01 with 1000 records a day, a drain that
  returns one record for every day of its window, and writes that succeed: the root
  holds 10000 records and is split.
\<close>

theorem run_recursive_leaves_partition_witness:
  "\<exists>r. run_recursive (\<lambda>k. per_day_1000) (\<lambda>w. Some (day_numbers w)) written 0 738886 738895
             = Some (Inr r)
           \<and> sorted_wrt (\<lambda>w1 w2. snd w1 < fst w2) (leaves r)
           \<and> (\<forall>i j. i < j \<and> j < length (leaves r)
                 \<longrightarrow> days (leaves r ! i) \<inter> days (leaves r ! j) = {})
           \<and> (\<forall>w \<in> set (leaves r).
                 738886 \<le> fst w \<and> fst w \<le> snd w \<and> snd w \<le> 738895
                 \<and> per_day_1000 w \<noteq> 0 \<and> per_day_1000 w \<le> 4800)
           \<and> sum_list (map per_day_1000 (leaves r)) = per_day_1000 (738886, 738895)
           \<and> \<Union> (days ` set (leaves r)) \<union> \<Union> (days ` {w \<in> set (probes r). per_day_1000 w = 0})
               = {738886..738895}
           \<and> found r = sum_list (map (\<lambda>w. length (day_numbers w)) (leaves r))"
proof -
  have additive: "per_day_1000 (a, b) = per_day_1000 (a, m) + per_day_1000 (m + 1, b)" for a m b
    by (simp add: per_day_1000_def algebra_simps)
  have single: "per_day_1000 (d, d) \<le> 4800" for d
    by (simp add: per_day_1000_def)
  have bounds: "first_padded \<le> 738886" "(738886::int) \<le> 738895" "738895 \<le> max_ordinal"
    by (simp_all add: first_padded_def max_ordinal_def)
  have drains: "(\<lambda>w. Some (day_numbers w)) w = Some (day_numbers w)" for w
    by simp
  have writes: "written w (day_numbers w) = None" for w
    by (simp add: written_def)
  show ?thesis
    by (rule run_recursive_leaves_partition
          [where c = per_day_1000 and s = 738886 and e = 738895 and k = 0
             and search_all = "\<lambda>w. Some (day_numbers w)"
             and results = day_numbers and dump = written,
           OF additive single bounds drains writes])
qed

text \<open>
  The claim as stated fails where nothing matches: on the single day 2024-01-01 with
  total 0 the run returns with no leaf, and the day is in no leaf.
\<close>

theorem run_recursive_cover_counterexample:
  "run_recursive no_results (\<lambda>w. Some (day_numbers w)) written 0 738886 738886
     = Some (Inr empty_plan)
   \<and> 738886 \<in> days (738886, 738886)
   \<and> 738886 \<notin> \<Union> (days ` set (leaves empty_plan))"
  by (simp add: run_recursive.simps no_results_def empty_plan_def days_def)

text \<open>
  Claim C3. The claim: every window the planner builds from a root with start \<open>\<le>\<close> end,
  hence every window passed to \<^verbatim>\<open>check_total_count\<close> and \<^verbatim>\<open>search_all\<close>, has
  start \<open>\<le>\<close> end. The code: on the single day 2024-01-01, probed once with total 5000
  and then failing (a failed probe gives 0), the left recursive call is the same day
  again and the right one is the window from 2024-01-02 to 2024-01-01, which is passed
  to \<^verbatim>\<open>check_total_count\<close>.
\<close>

theorem run_recursive_probes_inverted_window:
  "run_recursive flaky search_all dump 0 738886 738886 =
     Some (Inr \<lparr>probes = [(738886, 738886), (738886, 738886), (738887, 738886)],
                leaves = [], found = 0, clock = 3\<rparr>)"
  by (simp add: run_recursive.simps flaky_def midpoint_def max_ordinal_def is_date_def
        first_padded_def)

section \<open>Arguments of the cninfo keyword search\<close>

text \<open>
  \<^verbatim>\<open>CninfoSearchDownloader._normalize_page_size\<close> calls the built-in \<^verbatim>\<open>int\<close> on
  its argument and falls back to 30 on any exception. The built-in is a parameter
  \<open>to_int\<close> of the model, so that the result holds whatever values it accepts;
  \<open>py_int\<close> is its behaviour on the values the command line passes (an \<^verbatim>\<open>int\<close>) and
  on \<^verbatim>\<open>None\<close>.
\<close>

datatype py_value = PyInt int | PyNone

fun py_int :: "py_value \<Rightarrow> error + int" where
  "py_int (PyInt n) = Inr n"
| "py_int PyNone = Inl TypeError"

definition normalize_page_size :: "('v \<Rightarrow> error + int) \<Rightarrow> 'v \<Rightarrow> int" where
  "normalize_page_size to_int page_size =
     (let page_size = (case to_int page_size of Inr n \<Rightarrow> n | Inl e \<Rightarrow> 30)
      in max 1 (min page_size 30))"

text \<open>
  \<^verbatim>\<open>CninfoSearchDownloader.run\<close> up to the call of \<^verbatim>\<open>search_and_build_index\<close>:
  the checks of its arguments in the order of the source, then the page size the search
  works with (\<open>None\<close> when the step builds no index). A date argument is absent
  (\<^verbatim>\<open>None\<close> or empty, replaced by a default counted from today), malformed
  (\<^verbatim>\<open>strptime\<close> raises), or a day.
\<close>

datatype date_text = NoDate | BadDate | Date int

fun parse_date :: "date_text \<Rightarrow> error + int" where
  "parse_date (Date d) = Inr d"
| "parse_date _ = Inl (ValueError DateFormat)"

definition non_positive :: "int option \<Rightarrow> bool" where
  "non_positive v = (case v of None \<Rightarrow> False | Some n \<Rightarrow> n \<le> 0)"

definition date_or :: "date_text \<Rightarrow> int \<Rightarrow> date_text" where
  "date_or d dflt = (if d = NoDate then Date dflt else d)"

definition run :: "('v \<Rightarrow> error + int) \<Rightarrow> int \<Rightarrow> string \<Rightarrow> date_text \<Rightarrow> date_text \<Rightarrow> 'v
    \<Rightarrow> int option \<Rightarrow> int option \<Rightarrow> int option \<Rightarrow> error + int option" where
  "run to_int today step start_date end_date page_size max_pages max_results workers =
     (if step \<notin> {''index'', ''download'', ''all''} then Inl (ValueError BadStep)
      else if non_positive max_pages then Inl (ValueError MaxPages)
      else if non_positive max_results then Inl (ValueError MaxResults)
      else if non_positive workers then Inl (ValueError Workers)
      else
        (case (parse_date (date_or start_date (today - 30)), parse_date (date_or end_date today)) of
           (Inr st, Inr ed) \<Rightarrow>
             if st > ed then Inl (ValueError DateOrder)
             else Inr (if step \<in> {''index'', ''all''}
                       then Some (normalize_page_size to_int page_size) else None)
         | _ \<Rightarrow> Inl (ValueError DateFormat)))"

text \<open>
  Claim C10. For every input, \<^verbatim>\<open>_normalize_page_size\<close> returns an integer from 1 to
  30: a value above 30 gives 30, a value below 1 gives 1, a value in between is kept, and
  an input the built-in \<^verbatim>\<open>int\<close> rejects gives 30. A run whose other arguments pass
  the checks is not aborted by a page size of 0 or less: the search works with page size
  1. A worker count, page limit or result limit of 0 or less makes \<^verbatim>\<open>run\<close> raise
  \<^verbatim>\<open>ValueError\<close>.
\<close>

theorem normalize_page_size_clamps:
  "1 \<le> normalize_page_size to_int v \<and> normalize_page_size to_int v \<le> 30
   \<and> (\<forall>n. to_int v = Inr n \<longrightarrow>
          normalize_page_size to_int v = (if 30 < n then 30 else if n < 1 then 1 else n))
   \<and> (\<forall>e. to_int v = Inl e \<longrightarrow> normalize_page_size to_int v = 30)
   \<and> (\<forall>n r. to_int v = Inr n \<and> n \<le> 0 \<and> step \<in> {''index'', ''all''}
          \<and> run to_int today step sd ed v30 mp mr w = Inr r
          \<longrightarrow> run to_int today step sd ed v mp mr w = Inr (Some 1))
   \<and> (non_positive w \<or> non_positive mp \<or> non_positive mr
          \<longrightarrow> (\<exists>r. run to_int today step sd ed v mp mr w = Inl (ValueError r)))"
  by (auto simp: normalize_page_size_def Let_def run_def split: sum.splits if_splits)

text \<open>The theorem at page sizes 100, -5, 17 and \<^verbatim>\<open>None\<close>, and at a run with page size 0.\<close>

theorem normalize_page_size_clamps_witness:
  "normalize_page_size py_int (PyInt 100) = 30
   \<and> normalize_page_size py_int (PyInt (-5)) = 1
   \<and> normalize_page_size py_int (PyInt 17) = 17
   \<and> normalize_page_size py_int PyNone = 30
   \<and> run py_int 739000 ''all'' NoDate NoDate (PyInt 0) None None (Some 3) = Inr (Some 1)
   \<and> (\<exists>r. run py_int 739000 ''all'' NoDate NoDate (PyInt 0) None None (Some 0) = Inl (ValueError r))"
proof -
  have a: "normalize_page_size py_int (PyInt 100) = 30"
    using normalize_page_size_clamps[of py_int "PyInt 100"] by simp
  have b: "normalize_page_size py_int (PyInt (-5)) = 1"
    using normalize_page_size_clamps[of py_int "PyInt (-5)"] by simp
  have c: "normalize_page_size py_int (PyInt 17) = 17"
    using normalize_page_size_clamps[of py_int "PyInt 17"] by simp
  have d: "normalize_page_size py_int PyNone = 30"
    using normalize_page_size_clamps[of py_int PyNone] by simp
  have e0: "run py_int 739000 ''all'' NoDate NoDate (PyInt 30) None None (Some 3) = Inr (Some 30)"
    by (simp add: run_def non_positive_def date_or_def normalize_page_size_def)
  have e: "run py_int 739000 ''all'' NoDate NoDate (PyInt 0) None None (Some 3) = Inr (Some 1)"
    using normalize_page_size_clamps[of py_int "PyInt 0" "''all''" 739000 NoDate NoDate "PyInt 30" None None "Some 3"] e0
    by simp
  have f: "\<exists>r. run py_int 739000 ''all'' NoDate NoDate (PyInt 0) None None (Some 0) = Inl (ValueError r)"
    using normalize_page_size_clamps[of py_int "PyInt 0" "''all''" 739000 NoDate NoDate "PyInt 30" None None "Some 0"]
    by (simp add: non_positive_def)
  from a b c d e f show ?thesis by blast
qed

section \<open>Draining the pages of one window\<close>















section \<open>Properties of the page drains\<close>











section \<open>Downloading through the browser context\<close>

text \<open>
  \<^verbatim>\<open>_playwright_download_file(context, url, path)\<close>. A body is a byte string, here a
  list of characters; \<^verbatim>\<open>needle in body\<close> is \<open>sublist needle body\<close> and
  \<^verbatim>\<open>body[:4]\<close> is \<open>take 4 body\<close>. The answer to the \<open>n\<close>-th
  \<^verbatim>\<open>context.request.get\<close> of the call is a parameter: a body, or \<open>None\<close> when the
  request raised. The files on disk are a map from paths to contents. The call is
  modelled with what it did: the requests and the navigation of \<^verbatim>\<open>_solve_waf\<close>, in
  order. \<^verbatim>\<open>_solve_waf\<close> swallows what \<^verbatim>\<open>page.goto\<close> raises; opening and closing
  the page and writing the file are taken not to fail.
\<close>

type_synonym bytes = string

datatype event = Fetch string | Navigate string

datatype verdict = Saved nat | PostChallengeFailure nat | InvalidFile | Raised

record attempt =
  ok :: bool
  message :: verdict
  trace :: "event list"
  disk :: "string \<rightharpoonup> bytes"

definition is_waf :: "bytes \<Rightarrow> bool" where
  "is_waf body =
     (if sublist ''var arg1='' body \<or> sublist ''var _0x'' body then True
      else if take 4 body \<noteq> ''%PDF'' \<and> length body < 6000 \<and> sublist ''<html'' body then True
      else False)"

definition commit :: "bytes \<Rightarrow> string \<Rightarrow> event list \<Rightarrow> (string \<rightharpoonup> bytes) \<Rightarrow> attempt" where
  "commit body path tr files =
     (if take 4 body = ''%PDF'' \<or> length body > 1000
      then \<lparr>ok = True, message = Saved (length body), trace = tr, disk = files(path \<mapsto> body)\<rparr>
      else \<lparr>ok = False, message = InvalidFile, trace = tr, disk = files\<rparr>)"

definition playwright_download_file ::
  "(nat \<Rightarrow> bytes option) \<Rightarrow> string \<Rightarrow> string \<Rightarrow> (string \<rightharpoonup> bytes) \<Rightarrow> attempt" where
  "playwright_download_file reply url path files =
     (case reply 0 of
        None \<Rightarrow> \<lparr>ok = False, message = Raised, trace = [Fetch url], disk = files\<rparr>
      | Some body \<Rightarrow>
          if is_waf body then
            (case reply 1 of
               None \<Rightarrow> \<lparr>ok = False, message = Raised,
                         trace = [Fetch url, Navigate url, Fetch url], disk = files\<rparr>
             | Some body2 \<Rightarrow>
                 if take 4 body2 = ''%PDF''
                 then commit body2 path [Fetch url, Navigate url, Fetch url] files
                 else \<lparr>ok = False, message = PostChallengeFailure (length body2),
                       trace = [Fetch url, Navigate url, Fetch url], disk = files\<rparr>)
          else commit body path [Fetch url] files)"

text \<open>
  Concrete bodies: a 900-byte HTML page with a challenge marker, a 50000-byte body with
  the PDF magic bytes, and a 50000-byte body with the magic bytes of a zip archive (a
  \<^verbatim>\<open>.docx\<close> file); \<open>replies\<close> answers the requests from a list.
\<close>

definition challenge_page :: bytes where
  "challenge_page = ''<html><script>var arg1='' @ replicate 877 (CHR ''0'')"

definition pdf_body :: bytes where
  "pdf_body = ''%PDF'' @ replicate 49996 (CHR ''x'')"

definition docx_body :: bytes where
  "docx_body = ''PK'' @ replicate 49998 (CHR ''x'')"

definition replies :: "bytes list \<Rightarrow> nat \<Rightarrow> bytes option" where
  "replies bs n = (if n < length bs then Some (bs ! n) else None)"

section \<open>Properties of the browser download\<close>

lemma not_sublist: "c \<in> set xs \<Longrightarrow> c \<notin> set ys \<Longrightarrow> \<not> sublist xs ys"
  using set_mono_sublist by fastforce

lemma challenge_page_is_waf: "is_waf challenge_page"
proof -
  have "sublist ''var arg1='' (''<html><script>'' @ ''var arg1='' @ replicate 877 (CHR ''0''))"
    by (rule sublist_appendI)
  then show ?thesis by (simp add: is_waf_def challenge_page_def)
qed

lemma docx_body_not_waf: "\<not> is_waf docx_body"
proof -
  have "\<not> sublist ''var arg1='' docx_body" "\<not> sublist ''var _0x'' docx_body"
    "\<not> sublist ''<html'' docx_body"
    by (rule not_sublist[of "CHR ''a''"], simp, simp add: docx_body_def)
       (rule not_sublist[of "CHR ''a''"], simp, simp add: docx_body_def,
        rule not_sublist[of "CHR ''h''"], simp, simp add: docx_body_def)
  then show ?thesis by (simp add: is_waf_def)
qed

text \<open>
  Claim C8, as amended. The claim: for every response classified as a challenge page
  (challenge-script markers, or a small HTML body that is no PDF) the engine performs
  exactly one browser navigation to the URL followed by exactly one re-issued fetch; if
  the re-fetched body still fails classification the task ends as a post-challenge
  failure, and if it is a valid artifact the task commits and succeeds. The code accepts
  the re-fetched body only when it starts with the PDF magic bytes. What holds: after a
  challenge page the call makes one navigation and one more request, in this order; a
  re-fetched body that starts with \<^verbatim>\<open>%PDF\<close> is written to the path and the call
  succeeds; any other re-fetched body ends the call as a post-challenge failure with
  nothing written.
\<close>

theorem challenge_recovery:
  assumes "reply 0 = Some body" and "is_waf body"
  shows "trace (playwright_download_file reply url path files) = [Fetch url, Navigate url, Fetch url]
    \<and> (\<forall>body2. reply 1 = Some body2 \<and> take 4 body2 = ''%PDF'' \<longrightarrow>
          playwright_download_file reply url path files =
            \<lparr>ok = True, message = Saved (length body2),
             trace = [Fetch url, Navigate url, Fetch url], disk = files(path \<mapsto> body2)\<rparr>)
    \<and> (\<forall>body2. reply 1 = Some body2 \<and> take 4 body2 \<noteq> ''%PDF'' \<longrightarrow>
          playwright_download_file reply url path files =
            \<lparr>ok = False, message = PostChallengeFailure (length body2),
             trace = [Fetch url, Navigate url, Fetch url], disk = files\<rparr>)"
  using assms by (auto simp: playwright_download_file_def commit_def split: option.splits)

text \<open>
  The theorem at the scenario of the specification: a 900-byte challenge page, then a
  50000-byte PDF.
\<close>

theorem challenge_recovery_witness:
  "length challenge_page = 900 \<and> length pdf_body = 50000
   \<and> playwright_download_file (replies [challenge_page, pdf_body]) ''u'' ''p'' Map.empty =
       \<lparr>ok = True, message = Saved 50000, trace = [Fetch ''u'', Navigate ''u'', Fetch ''u''],
        disk = [''p'' \<mapsto> pdf_body]\<rparr>"
proof -
  have r: "replies [challenge_page, pdf_body] 0 = Some challenge_page"
    "replies [challenge_page, pdf_body] 1 = Some pdf_body"
    by (simp_all add: replies_def)
  have "take 4 pdf_body = ''%PDF''" by (simp add: pdf_body_def)
  moreover have "length challenge_page = 900" "length pdf_body = 50000"
    by (simp_all add: challenge_page_def pdf_body_def)
  moreover note challenge_recovery[of "replies [challenge_page, pdf_body]" challenge_page
      "''u''" "''p''" Map.empty] r challenge_page_is_waf
  ultimately show ?thesis by simp
qed

text \<open>
  The claim as stated fails for a valid artifact that is no PDF: the 50000-byte archive
  is committed when it is the first reply, and rejected when it follows a challenge page.
\<close>

theorem challenge_recovery_counterexample:
  "playwright_download_file (replies [docx_body]) ''u'' ''p'' Map.empty =
       \<lparr>ok = True, message = Saved 50000, trace = [Fetch ''u''], disk = [''p'' \<mapsto> docx_body]\<rparr>
   \<and> playwright_download_file (replies [challenge_page, docx_body]) ''u'' ''p'' Map.empty =
       \<lparr>ok = False, message = PostChallengeFailure 50000,
        trace = [Fetch ''u'', Navigate ''u'', Fetch ''u''], disk = Map.empty\<rparr>"
proof -
  have d: "take 4 docx_body \<noteq> ''%PDF''" "length docx_body = 50000"
    by (simp_all add: docx_body_def)
  show ?thesis
    using d docx_body_not_waf challenge_page_is_waf
    by (simp add: playwright_download_file_def commit_def replies_def)
qed

section \<open>Downloading and reconciling artifacts\<close>

text \<open>
  The state the download and reconciliation code works on: the files of the download
  directory, by file name (a record's local filename is taken to name a file inside that
  directory); the failure log \<^verbatim>\<open>download_failed.txt\<close>, \<open>None\<close> when the file does not
  exist, otherwise its lines; and the number of network requests made so far. The reply
  to the \<open>n\<close>-th request is a parameter of every function that uses the network. A
  log line is what it records (a gap: file name and URL; a failed download: file name and
  message); the text layout of a line is not modelled. Writing a file is taken to be
  atomic and not to fail. A worker pool is modelled as running its tasks one after the
  other in the order of submission.
\<close>

datatype fetch_msg = Skipped | Succeeded | RetriesExhausted | UnknownError

datatype log_line = Gap string string | NotFetched string fetch_msg

record world =
  files :: "string \<rightharpoonup> bytes"
  fail_log :: "log_line list option"
  calls :: nat

definition valid_artifact :: "nat \<Rightarrow> bytes option \<Rightarrow> bool" where
  "valid_artifact threshold f = (case f of None \<Rightarrow> False | Some b \<Rightarrow> length b > threshold)"

text \<open>
  \<^verbatim>\<open>SSEInquiriesScraper._download_file(url, filename)\<close>. A reply is a body with its
  content type, or an exception (of the request or of \<^verbatim>\<open>raise_for_status\<close>). Every
  attempt makes two requests: the visit of the listing page, whose outcome is ignored,
  and the download. \<open>try_download\<close> is the loop over the attempts, counted down.
\<close>

datatype inquiry_reply = Raised_in_request | Body string bytes

fun try_download ::
  "(nat \<Rightarrow> string \<Rightarrow> inquiry_reply) \<Rightarrow> string \<Rightarrow> string \<Rightarrow> nat \<Rightarrow> world \<Rightarrow> (bool \<times> fetch_msg) \<times> world"
where
  "try_download net url filename 0 w = ((False, UnknownError), w)"
| "try_download net url filename (Suc remaining) w =
     (let w1 = w\<lparr>calls := calls w + 2\<rparr>;
          failed = (\<lambda>w2. if remaining = 0 then ((False, RetriesExhausted), w2)
                          else try_download net url filename remaining w2)
      in case net (calls w + 1) url of
           Raised_in_request \<Rightarrow> failed w1
         | Body content_type content \<Rightarrow>
             if sublist ''text/html'' content_type \<and> length content < 10000 then failed w1
             else
               (let w2 = w1\<lparr>files := (files w1)(filename \<mapsto> content)\<rparr>
                in if length content < 1000
                   then failed (w2\<lparr>files := (files w2)(filename := None)\<rparr>)
                   else ((True, Succeeded), w2)))"

definition download_file_inquiry ::
  "(nat \<Rightarrow> string \<Rightarrow> inquiry_reply) \<Rightarrow> string \<Rightarrow> string \<Rightarrow> world \<Rightarrow> (bool \<times> fetch_msg) \<times> world"
where
  "download_file_inquiry net url filename w =
     (case files w filename of
        Some b \<Rightarrow>
          if length b > 1000 then ((True, Skipped), w)
          else try_download net url filename 3 (w\<lparr>files := (files w)(filename := None)\<rparr>)
      | None \<Rightarrow> try_download net url filename 3 w)"

text \<open>
  \<^verbatim>\<open>CninfoSearchDownloader._download_file(url, save_path)\<close>. \<open>lower\<close> is
  \<^verbatim>\<open>lower()\<close> on ASCII. A reply is a timeout, another exception, or a status code
  with content type and body.
\<close>

definition lower_char :: "char \<Rightarrow> char" where
  "lower_char c = (let n = (of_char c :: nat) in if 65 \<le> n \<and> n \<le> 90 then char_of (n + 32) else c)"

definition lower :: "string \<Rightarrow> string" where
  "lower s = map lower_char s"

datatype cninfo_reply = Timeout | Failed | Http nat string bytes

datatype cninfo_msg = Done | HttpStatus nat | HtmlReturned | TooSmall | TimedOut | OtherError | Unknown

fun cninfo_attempts ::
  "(nat \<Rightarrow> string \<Rightarrow> cninfo_reply) \<Rightarrow> string \<Rightarrow> string \<Rightarrow> nat \<Rightarrow> cninfo_msg option \<Rightarrow> world
     \<Rightarrow> (bool \<times> cninfo_msg) \<times> world"
where
  "cninfo_attempts net url save_path 0 err w =
     ((False, case err of None \<Rightarrow> Unknown | Some e \<Rightarrow> e), w)"
| "cninfo_attempts net url save_path (Suc remaining) err w =
     (let w1 = w\<lparr>calls := calls w + 1\<rparr>
      in case net (calls w) url of
           Timeout \<Rightarrow> cninfo_attempts net url save_path remaining (Some TimedOut) w1
         | Failed \<Rightarrow> cninfo_attempts net url save_path remaining (Some OtherError) w1
         | Http status_code content_type content \<Rightarrow>
             if status_code = 200 then
               if sublist ''text/html'' (lower content_type) \<and> length content < 50000
                  \<and> sublist ''<html'' (lower (take 2000 content))
               then cninfo_attempts net url save_path remaining (Some HtmlReturned) w1
               else
                 (let w2 = w1\<lparr>files := (files w1)(save_path \<mapsto> content)\<rparr>
                  in if length content > 1024 then ((True, Done), w2)
                     else cninfo_attempts net url save_path remaining (Some TooSmall)
                            (w2\<lparr>files := (files w2)(save_path := None)\<rparr>))
             else if status_code = 404 \<or> status_code = 410
             then ((False, HttpStatus status_code), w1)
             else cninfo_attempts net url save_path remaining (Some (HttpStatus status_code)) w1)"

definition download_file_cninfo ::
  "(nat \<Rightarrow> string \<Rightarrow> cninfo_reply) \<Rightarrow> string \<Rightarrow> string \<Rightarrow> world \<Rightarrow> (bool \<times> cninfo_msg) \<times> world"
where
  "download_file_cninfo net url save_path w = cninfo_attempts net url save_path 3 None w"

text \<open>
  \<^verbatim>\<open>SSEInquiriesScraper.download_from_json\<close>: the JSON file is absent (\<open>None\<close>) or
  holds records, of which the fields \<^verbatim>\<open>url\<close> and \<^verbatim>\<open>local_filename\<close> are used. The
  call returns the counts it prints.
\<close>

record inquiry_record =
  rec_url :: string
  rec_local_filename :: string

record tally =
  succeeded :: nat
  skipped_files :: nat
  failed :: nat
  failed_files :: "log_line list"

fun download_each ::
  "(nat \<Rightarrow> string \<Rightarrow> inquiry_reply) \<Rightarrow> (string \<times> string) list \<Rightarrow> tally \<Rightarrow> world \<Rightarrow> tally \<times> world"
where
  "download_each net [] t w = (t, w)"
| "download_each net ((u, fn) # rest) t w =
     (case download_file_inquiry net u fn w of
        ((fetched, msg), w') \<Rightarrow>
          download_each net rest
            (if fetched then
               (if msg = Skipped then t\<lparr>skipped_files := skipped_files t + 1\<rparr>
                else t\<lparr>succeeded := succeeded t + 1\<rparr>)
             else t\<lparr>failed := failed t + 1,
                    failed_files := failed_files t @ [NotFetched fn msg]\<rparr>)
            w')"

definition download_list_of :: "inquiry_record list \<Rightarrow> (string \<times> string) list" where
  "download_list_of results =
     map (\<lambda>r. (rec_url r, rec_local_filename r)) (filter (\<lambda>r. rec_url r \<noteq> []) results)"

definition download_from_json ::
  "(nat \<Rightarrow> string \<Rightarrow> inquiry_reply) \<Rightarrow> inquiry_record list option \<Rightarrow> world \<Rightarrow> tally option \<times> world"
where
  "download_from_json net json w =
     (case json of
        None \<Rightarrow> (None, w)
      | Some results \<Rightarrow>
          (case download_each net (download_list_of results)
                  \<lparr>succeeded = 0, skipped_files = 0, failed = 0, failed_files = []\<rparr> w of
             (t, w') \<Rightarrow>
               (Some t, if failed_files t \<noteq> [] then w'\<lparr>fail_log := Some (failed_files t)\<rparr> else w')))"

text \<open>
  \<^verbatim>\<open>CninfoSearchDownloader.download_from_index\<close>: the rows of the download report.
  \<^verbatim>\<open>_build_local_filename\<close> is a parameter; \<open>strip\<close> removes ASCII white space at both
  ends; \<open>or_else a b\<close> is Python's \<^verbatim>\<open>a or b\<close> on strings. An empty index returns
  \<^verbatim>\<open>None\<close> before anything else is done.
\<close>

record index_record =
  announcement_id :: string
  download_url_static :: string
  adjunct_url :: string
  sec_code :: string
  sec_name :: string
  announcement_date :: string
  adjunct_type :: string

datatype status = Success | Fail | Skip

datatype row_error = NoError | DuplicateKey | MissingUrl | Message cninfo_msg

record report_row =
  row_source :: index_record
  row_url :: string
  row_filename :: string
  row_status :: status
  row_error :: row_error

definition is_space :: "char \<Rightarrow> bool" where
  "is_space c = ((of_char c :: nat) \<in> {9, 10, 11, 12, 13, 28, 29, 30, 31, 32})"

definition strip :: "string \<Rightarrow> string" where
  "strip s = rev (dropWhile is_space (rev (dropWhile is_space s)))"

definition or_else :: "string \<Rightarrow> string \<Rightarrow> string" where
  "or_else a b = (if a \<noteq> [] then a else b)"

fun scan_index ::
  "(index_record \<Rightarrow> string) \<Rightarrow> (string \<rightharpoonup> bytes) \<Rightarrow> index_record list \<Rightarrow> string set
     \<Rightarrow> report_row list \<times> (index_record \<times> string \<times> string) list"
where
  "scan_index build_local_filename fs [] seen_keys = ([], [])"
| "scan_index build_local_filename fs (r # rest) seen_keys =
     (let key = strip (or_else (announcement_id r) (download_url_static r))
      in if key \<noteq> [] \<and> key \<in> seen_keys then
           (case scan_index build_local_filename fs rest seen_keys of
              (report_rows, download_tasks) \<Rightarrow>
                (\<lparr>row_source = r, row_url = download_url_static r, row_filename = [],
                   row_status = Skip, row_error = DuplicateKey\<rparr> # report_rows, download_tasks))
         else
           (let seen = (if key \<noteq> [] then insert key seen_keys else seen_keys);
                u = strip (or_else (download_url_static r) (adjunct_url r));
                local_filename = build_local_filename r
            in case scan_index build_local_filename fs rest seen of
                 (report_rows, download_tasks) \<Rightarrow>
                   if u = [] then
                     (\<lparr>row_source = r, row_url = [], row_filename = local_filename,
                        row_status = Skip, row_error = MissingUrl\<rparr> # report_rows, download_tasks)
                   else if valid_artifact 1024 (fs local_filename) then
                     (\<lparr>row_source = r, row_url = u, row_filename = local_filename,
                        row_status = Skip, row_error = NoError\<rparr> # report_rows, download_tasks)
                   else (report_rows, (r, u, local_filename) # download_tasks)))"

fun run_tasks ::
  "(nat \<Rightarrow> string \<Rightarrow> cninfo_reply) \<Rightarrow> (index_record \<times> string \<times> string) list \<Rightarrow> world
     \<Rightarrow> report_row list \<times> world"
where
  "run_tasks net [] w = ([], w)"
| "run_tasks net ((r, u, local_filename) # tasks) w =
     (case download_file_cninfo net u local_filename w of
        ((fetched, msg), w') \<Rightarrow>
          (case run_tasks net tasks w' of
             (rows, w'') \<Rightarrow>
               (\<lparr>row_source = r, row_url = u, row_filename = local_filename,
                  row_status = (if fetched then Success else Fail),
                  row_error = (if fetched then NoError else Message msg)\<rparr> # rows, w'')))"

definition download_from_index ::
  "(nat \<Rightarrow> string \<Rightarrow> cninfo_reply) \<Rightarrow> (index_record \<Rightarrow> string) \<Rightarrow> index_record list \<Rightarrow> world
     \<Rightarrow> report_row list option \<times> world"
where
  "download_from_index net build_local_filename index w =
     (if index = [] then (None, w)
      else
        (case scan_index build_local_filename (files w) index {} of
           (report_rows, download_tasks) \<Rightarrow>
             (case run_tasks net download_tasks w of
                (task_rows, w') \<Rightarrow> (Some (report_rows @ task_rows), w'))))"









text \<open>Concrete states, replies and records.\<close>

definition fresh :: world where
  "fresh = \<lparr>files = Map.empty, fail_log = None, calls = 0\<rparr>"

definition stub_body :: "nat \<Rightarrow> string \<Rightarrow> inquiry_reply" where
  "stub_body n u = Body ''application/pdf'' (replicate 500 (CHR ''x''))"


definition id_pdf :: "index_record \<Rightarrow> string" where
  "id_pdf r = announcement_id r @ ''.pdf''"

definition announcement :: "string \<Rightarrow> index_record" where
  "announcement n = \<lparr>announcement_id = n, download_url_static = ''https://static.cninfo.com.cn/'' @ n,
     adjunct_url = n, sec_code = ''000001'', sec_name = ''bank'', announcement_date = ''2024-01-02'',
     adjunct_type = ''PDF''\<rparr>"

definition big_pdf :: "nat \<Rightarrow> string \<Rightarrow> cninfo_reply" where
  "big_pdf n u = Http 200 ''application/pdf'' (replicate 2000 (CHR ''x''))"

definition stocked :: world where
  "stocked = \<lparr>files = [''1'' @ ''.pdf'' \<mapsto> replicate 2000 (CHR ''x''),
                        ''2'' @ ''.pdf'' \<mapsto> replicate 2000 (CHR ''x'')],
              fail_log = None, calls = 2\<rparr>"






section \<open>Properties of downloading and reconciling\<close>












lemma pdf_type_not_html:
  "\<not> sublist ''text/html'' ''application/pdf''" "\<not> sublist ''text/html'' (lower ''application/pdf'')"
  by code_simp+




lemma download_file_inquiry_skip:
  "valid_artifact 1000 (files w fn) \<Longrightarrow> download_file_inquiry net u fn w = ((True, Skipped), w)"
  by (auto simp: download_file_inquiry_def valid_artifact_def split: option.splits)

lemma download_each_all_valid:
  "(\<forall>(u, fn) \<in> set todo. valid_artifact 1000 (files w fn)) \<Longrightarrow>
     download_each net todo t w = (t\<lparr>skipped_files := skipped_files t + length todo\<rparr>, w)"
proof (induction todo arbitrary: t)
  case Nil
  then show ?case by simp
next
  case (Cons a todo)
  obtain u fn where a: "a = (u, fn)" by (cases a)
  from Cons.prems a have v: "valid_artifact 1000 (files w fn)"
    and rest: "\<forall>(u, fn) \<in> set todo. valid_artifact 1000 (files w fn)" by auto
  show ?case
    using Cons.IH[OF rest] download_file_inquiry_skip[OF v] by (simp add: a)
qed

lemma scan_index_all_valid:
  "(\<forall>r \<in> set index. valid_artifact 1024 (fs (build r))) \<Longrightarrow>
     \<exists>rows. scan_index build fs index seen = (rows, [])
        \<and> length rows = length index \<and> (\<forall>row \<in> set rows. row_status row = Skip)"
proof (induction index arbitrary: seen)
  case Nil
  then show ?case by simp
next
  case (Cons r index)
  from Cons.prems have v: "valid_artifact 1024 (fs (build r))"
    and rest: "\<forall>r \<in> set index. valid_artifact 1024 (fs (build r))" by auto
  let ?key = "strip (or_else (announcement_id r) (download_url_static r))"
  let ?seen = "if ?key \<noteq> [] then insert ?key seen else seen"
  from Cons.IH[OF rest, of seen] obtain rows1 where r1:
    "scan_index build fs index seen = (rows1, [])" "length rows1 = length index"
    "\<forall>row \<in> set rows1. row_status row = Skip" by blast
  from Cons.IH[OF rest, of ?seen] obtain rows2 where r2:
    "scan_index build fs index ?seen = (rows2, [])" "length rows2 = length index"
    "\<forall>row \<in> set rows2. row_status row = Skip" by blast
  show ?case
    using v r1 r2 by (auto simp: Let_def)
qed

text \<open>
  Claim C5. When the target file exists with more than the minimum size,
  \<^verbatim>\<open>_download_file\<close> returns success with the message of a skip, and the state (files,
  log, number of requests) is unchanged. Hence a download run over records whose
  artifacts are all valid makes no request and changes no file: \<^verbatim>\<open>download_from_json\<close>
  counts every record that has a URL as skipped, and \<^verbatim>\<open>download_from_index\<close> reports
  one row per record, each with status skip.
\<close>

theorem valid_artifact_short_circuit:
  "(valid_artifact 1000 (files w fn) \<longrightarrow>
      download_file_inquiry net u fn w = ((True, Skipped), w))
   \<and> ((\<forall>r \<in> set results. rec_url r \<noteq> [] \<longrightarrow>
          valid_artifact 1000 (files w (rec_local_filename r))) \<longrightarrow>
      download_from_json net (Some results) w =
        (Some \<lparr>succeeded = 0, skipped_files = length (download_list_of results), failed = 0,
               failed_files = []\<rparr>, w))
   \<and> (index \<noteq> [] \<and> (\<forall>r \<in> set index. valid_artifact 1024 (files v (build r))) \<longrightarrow>
      (\<exists>rows. download_from_index cnet build index v = (Some rows, v)
         \<and> length rows = length index \<and> (\<forall>row \<in> set rows. row_status row = Skip)))"
proof (intro conjI impI)
  assume "valid_artifact 1000 (files w fn)"
  then show "download_file_inquiry net u fn w = ((True, Skipped), w)"
    by (rule download_file_inquiry_skip)
next
  assume a: "\<forall>r \<in> set results. rec_url r \<noteq> [] \<longrightarrow>
      valid_artifact 1000 (files w (rec_local_filename r))"
  then have "\<forall>(u, fn) \<in> set (download_list_of results). valid_artifact 1000 (files w fn)"
    by (auto simp: download_list_of_def)
  from download_each_all_valid[OF this]
  show "download_from_json net (Some results) w =
        (Some \<lparr>succeeded = 0, skipped_files = length (download_list_of results), failed = 0,
               failed_files = []\<rparr>, w)"
    by (simp add: download_from_json_def)
next
  assume a: "index \<noteq> [] \<and> (\<forall>r \<in> set index. valid_artifact 1024 (files v (build r)))"
  then obtain rows where rows: "scan_index build (files v) index {} = (rows, [])"
    "length rows = length index" "\<forall>row \<in> set rows. row_status row = Skip"
    using scan_index_all_valid[of index "files v" build "{}"] by blast
  with a have "download_from_index cnet build index v = (Some rows, v)"
    by (simp add: download_from_index_def)
  with rows show "\<exists>rows. download_from_index cnet build index v = (Some rows, v)
         \<and> length rows = length index \<and> (\<forall>row \<in> set rows. row_status row = Skip)"
    by blast
qed

lemma strip_plain: "strip ''1'' = ''1''" "strip ''2'' = ''2''"
  "strip ''https://static.cninfo.com.cn/1'' = ''https://static.cninfo.com.cn/1''"
  "strip ''https://static.cninfo.com.cn/2'' = ''https://static.cninfo.com.cn/2''"
  by (simp_all add: strip_def is_space_def)

lemma first_run:
  "download_from_index big_pdf id_pdf [announcement ''1'', announcement ''2''] fresh =
     (Some [\<lparr>row_source = announcement ''1'', row_url = ''https://static.cninfo.com.cn/1'',
              row_filename = ''1.pdf'', row_status = Success, row_error = NoError\<rparr>,
            \<lparr>row_source = announcement ''2'', row_url = ''https://static.cninfo.com.cn/2'',
              row_filename = ''2.pdf'', row_status = Success, row_error = NoError\<rparr>], stocked)"
  by (simp add: download_from_index_def fresh_def stocked_def announcement_def id_pdf_def
        or_else_def strip_plain valid_artifact_def Let_def download_file_cninfo_def
        numeral_3_eq_3 big_pdf_def pdf_type_not_html)

text \<open>
  The theorem at two runs over the same two records: the first downloads both files, the
  second, from the state the first left, makes no request and reports two skips.
\<close>

theorem valid_artifact_short_circuit_witness:
  "download_from_index big_pdf id_pdf [announcement ''1'', announcement ''2''] fresh =
     (Some [\<lparr>row_source = announcement ''1'', row_url = ''https://static.cninfo.com.cn/1'',
              row_filename = ''1.pdf'', row_status = Success, row_error = NoError\<rparr>,
            \<lparr>row_source = announcement ''2'', row_url = ''https://static.cninfo.com.cn/2'',
              row_filename = ''2.pdf'', row_status = Success, row_error = NoError\<rparr>], stocked)
   \<and> (\<exists>rows. download_from_index big_pdf id_pdf [announcement ''1'', announcement ''2''] stocked =
          (Some rows, stocked)
        \<and> length rows = 2 \<and> (\<forall>row \<in> set rows. row_status row = Skip))
   \<and> download_file_inquiry stub_body ''u'' ''1.pdf'' stocked = ((True, Skipped), stocked)"
proof -
  have v: "\<forall>r \<in> set [announcement ''1'', announcement ''2''].
      valid_artifact 1024 (files stocked (id_pdf r))"
    by (simp add: stocked_def announcement_def id_pdf_def valid_artifact_def)
  have i: "valid_artifact 1000 (files stocked ''1.pdf'')"
    by (simp add: stocked_def valid_artifact_def)
  note t = valid_artifact_short_circuit[of stocked "''1.pdf''" stub_body "''u''" "[]"
      "[announcement ''1'', announcement ''2'']" stocked id_pdf big_pdf]
  from t[THEN conjunct2, THEN conjunct2] v
  obtain rows where "download_from_index big_pdf id_pdf [announcement ''1'', announcement ''2''] stocked =
      (Some rows, stocked)" "length rows = length [announcement ''1'', announcement ''2'']"
      "\<forall>row \<in> set rows. row_status row = Skip"
    by auto
  then have "\<exists>rows. download_from_index big_pdf id_pdf [announcement ''1'', announcement ''2''] stocked =
          (Some rows, stocked)
        \<and> length rows = 2 \<and> (\<forall>row \<in> set rows. row_status row = Skip)"
    by auto
  moreover from t i
  have "download_file_inquiry stub_body ''u'' ''1.pdf'' stocked = ((True, Skipped), stocked)"
    by blast
  ultimately show ?thesis using first_run by blast
qed








end
